theory Spec2Isabelle
  imports Complex_Main "HOL-Library.Multiset" "HOL-Library.List_Lexorder" "HOL-Library.Char_ord"
begin

section \<open>Data model of backend/server.py\<close>

text \<open>
  Python floats are modelled as real numbers (exact arithmetic, no rounding, no NaN or
  infinity). A Python dict read with \<^verbatim>\<open>d.get(key, default)\<close> is an association list
  looked up with \<^const>\<open>map_of\<close>. Every exception the source can raise is a value of
  \<open>py_error\<close>, and a function that can raise returns \<open>py_error + 'a\<close>.
\<close>

datatype py_error =
    HTTPError
  | RequestException
  | JSONDecodeError
  | ValueError
  | KeyError
  | TypeError
  | AttributeError

text \<open>
  A bounding box is the dict \<^verbatim>\<open>{"top": north, "bottom": south, "left": west, "right": east}\<close>.
  The field \<^verbatim>\<open>top\<close> carries a prime because \<open>top\<close> is a constant of HOL.
\<close>

record bbox =
  top' :: real
  bottom :: real
  left :: real
  right :: real

text \<open>The triple \<^verbatim>\<open>(lat_c, lng_c, radius)\<close> that is sent to the aggregation service.\<close>

type_synonym circle = "real \<times> real \<times> real"

text \<open>
  What \<^verbatim>\<open>requests.get\<close> / \<^verbatim>\<open>requests.post\<close> return: the status code and the body as
  \<^verbatim>\<open>resp.json()\<close> decodes it (\<open>None\<close> when the body is not JSON, where
  \<^verbatim>\<open>resp.json()\<close> raises).
\<close>

record 'a response =
  status_code :: nat
  json_body :: "'a option"

text \<open>Response bodies, by the fields the source reads.\<close>

type_synonym count_json = "(string \<times> string) list"
type_synonym place_json = "(string \<times> string) list"
type_synonym places_json = "(string \<times> place_json list) list"
type_synonym nominatim_json = "(string \<times> real list) list list"

text \<open>The raw detail record of one place is an arbitrary JSON object.\<close>

datatype json =
    JNull
  | JBool bool
  | JNum real
  | JStr string
  | JArr "json list"
  | JObj "(string \<times> json) list"

text \<open>The external services, as the code calls them.\<close>

type_synonym geocode_oracle = "string \<Rightarrow> py_error + nominatim_json response"
type_synonym count_oracle = "nat \<Rightarrow> circle \<Rightarrow> py_error + count_json response"
type_synonym listing_oracle = "nat \<Rightarrow> circle \<Rightarrow> py_error + places_json response"
type_synonym detail_oracle = "string \<Rightarrow> py_error + json response"

section \<open>Helpers of the Python runtime and of requests\<close>

definition COUNT_LIMIT :: int where
  "COUNT_LIMIT = 100"

definition dict_get :: "(string \<times> 'v) list \<Rightarrow> string \<Rightarrow> 'v \<Rightarrow> 'v" where
  "dict_get d k dflt = (case map_of d k of None \<Rightarrow> dflt | Some v \<Rightarrow> v)"

text \<open>\<^verbatim>\<open>resp.raise_for_status()\<close>: HTTPError on a 4xx or 5xx status.\<close>

definition raise_for_status :: "'a response \<Rightarrow> py_error + unit" where
  "raise_for_status resp =
     (if 400 \<le> status_code resp \<and> status_code resp < 600 then Inl HTTPError else Inr ())"

text \<open>
  \<^verbatim>\<open>int(s)\<close> on an ASCII string: surrounding whitespace is stripped, one sign is allowed,
  then decimal digits with single underscores between them; anything else is a ValueError.
\<close>

definition is_space :: "char \<Rightarrow> bool" where
  "is_space c = (c \<in> set [CHR 0x20, CHR 0x09, CHR 0x0A, CHR 0x0B, CHR 0x0C, CHR 0x0D,
                          CHR 0x1C, CHR 0x1D, CHR 0x1E, CHR 0x1F])"

definition strip :: "string \<Rightarrow> string" where
  "strip s = rev (dropWhile is_space (rev (dropWhile is_space s)))"

definition is_digit :: "char \<Rightarrow> bool" where
  "is_digit c = (c \<in> set ''0123456789'')"

definition digit_val :: "char \<Rightarrow> int" where
  "digit_val c = int (of_char c) - 48"

fun digits_ok :: "string \<Rightarrow> bool" where
  "digits_ok [] = False"
| "digits_ok [c] = is_digit c"
| "digits_ok (c # d # cs) =
     (is_digit c \<and> (if d = CHR ''_'' then digits_ok cs else digits_ok (d # cs)))"

definition digits_value :: "string \<Rightarrow> int" where
  "digits_value ds = foldl (\<lambda>acc c. 10 * acc + digit_val c) 0 ds"

definition py_int :: "string \<Rightarrow> py_error + int" where
  "py_int s =
     (let t = strip s;
          neg = (case t of [] \<Rightarrow> False | c # _ \<Rightarrow> c = CHR ''-'');
          ds = (case t of [] \<Rightarrow> [] | c # r \<Rightarrow> if c = CHR ''-'' \<or> c = CHR ''+'' then r else t)
      in if digits_ok ds
         then Inr ((if neg then - 1 else 1) * digits_value (filter (\<lambda>c. c \<noteq> CHR ''_'') ds))
         else Inl ValueError)"

text \<open>Truthiness of \<^verbatim>\<open>p.get(key)\<close> on a dict of strings: \<^verbatim>\<open>None\<close> and \<^verbatim>\<open>""\<close> are false.\<close>

definition truthy :: "string option \<Rightarrow> bool" where
  "truthy v = (case v of None \<Rightarrow> False | Some s \<Rightarrow> s \<noteq> [])"

definition py_or :: "string option \<Rightarrow> string option \<Rightarrow> string option" where
  "py_or a b = (if truthy a then a else b)"

section \<open>Geometry\<close>

definition radians :: "real \<Rightarrow> real" where
  "radians d = d * pi / 180"

definition bbox_center_radius_m :: "bbox \<Rightarrow> circle" where
  "bbox_center_radius_m b =
     (let lat_c = (top' b + bottom b) / 2;
          lng_c = (left b + right b) / 2;
          lat_delta = (top' b - bottom b) / 2;
          lng_delta = (right b - left b) / 2;
          m_per_deg_lat = 111320;
          m_per_deg_lng = 111320 * cos (radians lat_c);
          r_m = sqrt ((lat_delta * m_per_deg_lat)\<^sup>2 + (lng_delta * m_per_deg_lng)\<^sup>2)
      in (lat_c, lng_c, max r_m 50))"

definition split_bbox :: "bbox \<Rightarrow> bbox list" where
  "split_bbox b =
     (let mid_lat = (top' b + bottom b) / 2;
          mid_lng = (left b + right b) / 2
      in [\<lparr>top' = top' b, bottom = mid_lat, left = left b, right = mid_lng\<rparr>,
          \<lparr>top' = top' b, bottom = mid_lat, left = mid_lng, right = right b\<rparr>,
          \<lparr>top' = mid_lat, bottom = bottom b, left = left b, right = mid_lng\<rparr>,
          \<lparr>top' = mid_lat, bottom = bottom b, left = mid_lng, right = right b\<rparr>])"

section \<open>Geocoding\<close>

definition get_city_bbox :: "geocode_oracle \<Rightarrow> string \<Rightarrow> py_error + bbox" where
  "get_city_bbox nominatim city =
     (case nominatim city of
        Inl e \<Rightarrow> Inl e
      | Inr r \<Rightarrow>
          (case raise_for_status r of
             Inl e \<Rightarrow> Inl e
           | Inr _ \<Rightarrow>
               (case json_body r of
                  None \<Rightarrow> Inl JSONDecodeError
                | Some [] \<Rightarrow> Inl ValueError
                | Some (entry # _) \<Rightarrow>
                    (case map_of entry ''boundingbox'' of
                       None \<Rightarrow> Inl KeyError
                     | Some [south, north, west, east] \<Rightarrow>
                         Inr \<lparr>top' = north, bottom = south, left = west, right = east\<rparr>
                     | Some _ \<Rightarrow> Inl ValueError))))"

section \<open>The two aggregation queries\<close>

text \<open>
  Both post the covering circle of the box; \<open>post\<close> is the service at the moment of
  the call.
\<close>

definition aggregate_count_for_bbox ::
  "(circle \<Rightarrow> py_error + count_json response) \<Rightarrow> bbox \<Rightarrow> py_error + int" where
  "aggregate_count_for_bbox post b =
     (case post (bbox_center_radius_m b) of
        Inl e \<Rightarrow> Inl e
      | Inr resp \<Rightarrow>
          (case raise_for_status resp of
             Inl e \<Rightarrow> Inl e
           | Inr _ \<Rightarrow>
               (case json_body resp of
                  None \<Rightarrow> Inl JSONDecodeError
                | Some data \<Rightarrow> py_int (dict_get data ''count'' ''0''))))"

text \<open>The loop \<^verbatim>\<open>for p in data.get("places", [])\<close> with its accumulator \<^verbatim>\<open>names\<close>.\<close>

fun names_loop :: "place_json list \<Rightarrow> string list \<Rightarrow> string list" where
  "names_loop [] names = names"
| "names_loop (p # ps) names =
     (let n = py_or (map_of p ''name'') (map_of p ''id'')
      in if truthy n then names_loop ps (names @ [the n]) else names_loop ps names)"

definition aggregate_places_for_bbox ::
  "(circle \<Rightarrow> py_error + places_json response) \<Rightarrow> bbox \<Rightarrow> py_error + string list" where
  "aggregate_places_for_bbox post b =
     (case post (bbox_center_radius_m b) of
        Inl e \<Rightarrow> Inl e
      | Inr resp \<Rightarrow>
          (case raise_for_status resp of
             Inl e \<Rightarrow> Inl e
           | Inr _ \<Rightarrow>
               (case json_body resp of
                  None \<Rightarrow> Inl JSONDecodeError
                | Some data \<Rightarrow> Inr (names_loop (dict_get data ''places'' []) []))))"

section \<open>The decomposition loop\<close>

text \<open>
  The state of \<^verbatim>\<open>collect_place_ids_for_city\<close>: the set \<^verbatim>\<open>ids\<close>, the list \<^verbatim>\<open>stack\<close>
  (its last element is the next one popped), and a record of the aggregation requests
  made so far, which the source does not keep but the statements below speak about.
\<close>

datatype call = CountCall circle | ListCall circle

record state =
  ids :: "string set"
  stack :: "bbox list"
  calls :: "call list"

text \<open>
  One iteration of \<^verbatim>\<open>while stack:\<close>, for a non-empty stack. The services may answer
  differently at each request: they are indexed by the number of requests made before.
\<close>

definition loop_body :: "count_oracle \<Rightarrow> listing_oracle \<Rightarrow> state \<Rightarrow> py_error + state" where
  "loop_body count_api list_api st =
     (let box = last (stack st);
          st1 = st\<lparr>stack := butlast (stack st)\<rparr>;
          st2 = st1\<lparr>calls := calls st1 @ [CountCall (bbox_center_radius_m box)]\<rparr>
      in case aggregate_count_for_bbox (count_api (length (calls st1))) box of
           Inl e \<Rightarrow>
             if e = HTTPError
             then Inr (if length (stack st2) < 2048
                       then st2\<lparr>stack := stack st2 @ split_bbox box\<rparr>
                       else st2)
             else Inl e
         | Inr cnt \<Rightarrow>
             if cnt = 0 then Inr st2
             else if cnt \<le> COUNT_LIMIT then
               (let st3 = st2\<lparr>calls := calls st2 @ [ListCall (bbox_center_radius_m box)]\<rparr>
                in case aggregate_places_for_bbox (list_api (length (calls st2))) box of
                     Inl e \<Rightarrow>
                       if e = HTTPError
                       then Inr (st3\<lparr>stack := stack st3 @ split_bbox box\<rparr>)
                       else Inl e
                   | Inr names \<Rightarrow> Inr (st3\<lparr>ids := fold insert names (ids st3)\<rparr>))
             else Inr (st2\<lparr>stack := stack st2 @ split_bbox box\<rparr>))"

text \<open>
  The loop, with fuel: \<open>None\<close> when the fuel runs out before the stack is empty (the
  source's loop need not terminate).
\<close>

fun while_stack :: "count_oracle \<Rightarrow> listing_oracle \<Rightarrow> nat \<Rightarrow> state \<Rightarrow> (py_error + state) option" where
  "while_stack count_api list_api 0 st = (if stack st = [] then Some (Inr st) else None)"
| "while_stack count_api list_api (Suc fuel) st =
     (if stack st = [] then Some (Inr st)
      else case loop_body count_api list_api st of
             Inl e \<Rightarrow> Some (Inl e)
           | Inr st' \<Rightarrow> while_stack count_api list_api fuel st')"

definition initial_state :: "bbox \<Rightarrow> state" where
  "initial_state b = \<lparr>ids = {}, stack = [b], calls = []\<rparr>"

definition collect_place_ids_for_city ::
  "geocode_oracle \<Rightarrow> count_oracle \<Rightarrow> listing_oracle \<Rightarrow> nat \<Rightarrow> string \<Rightarrow>
     (py_error + string list) option" where
  "collect_place_ids_for_city nominatim count_api list_api fuel city =
     (case get_city_bbox nominatim city of
        Inl e \<Rightarrow> Some (Inl e)
      | Inr b \<Rightarrow>
          (case while_stack count_api list_api fuel (initial_state b) of
             None \<Rightarrow> None
           | Some (Inl e) \<Rightarrow> Some (Inl e)
           | Some (Inr st) \<Rightarrow> Some (Inr (sorted_list_of_set (ids st)))))"

section \<open>Hydration\<close>

text \<open>Truthiness of a JSON value (\<^verbatim>\<open>if not data\<close>, \<^verbatim>\<open>if location_data and ...\<close>).\<close>

fun json_truthy :: "json \<Rightarrow> bool" where
  "json_truthy JNull = False"
| "json_truthy (JBool b) = b"
| "json_truthy (JNum x) = (x \<noteq> 0)"
| "json_truthy (JStr s) = (s \<noteq> [])"
| "json_truthy (JArr xs) = (xs \<noteq> [])"
| "json_truthy (JObj kvs) = (kvs \<noteq> [])"

text \<open>\<^verbatim>\<open>needle in s\<close> on strings.\<close>

fun starts_with :: "string \<Rightarrow> string \<Rightarrow> bool" where
  "starts_with [] s = True"
| "starts_with (c # cs) [] = False"
| "starts_with (c # cs) (d # ds) = (c = d \<and> starts_with cs ds)"

fun str_contains :: "string \<Rightarrow> string \<Rightarrow> bool" where
  "str_contains needle [] = (needle = [])"
| "str_contains needle (c # s) = (starts_with needle (c # s) \<or> str_contains needle s)"

text \<open>\<^verbatim>\<open>key in v\<close> for a string key: a TypeError when \<open>v\<close> is no container.\<close>

definition py_in :: "string \<Rightarrow> json \<Rightarrow> py_error + bool" where
  "py_in k v =
     (case v of
        JObj kvs \<Rightarrow> Inr (map_of kvs k \<noteq> None)
      | JArr xs \<Rightarrow> Inr (JStr k \<in> set xs)
      | JStr s \<Rightarrow> Inr (str_contains k s)
      | _ \<Rightarrow> Inl TypeError)"

definition place_details :: "detail_oracle \<Rightarrow> string \<Rightarrow> py_error + json option" where
  "place_details get place_resource_name =
     (case get place_resource_name of
        Inl e \<Rightarrow> Inl e
      | Inr resp \<Rightarrow>
          if status_code resp = 404 then Inr None
          else (case raise_for_status resp of
                  Inl e \<Rightarrow> Inl e
                | Inr _ \<Rightarrow>
                    (case json_body resp of
                       None \<Rightarrow> Inl JSONDecodeError
                     | Some data \<Rightarrow> Inr (Some data))))"

text \<open>The value of \<^verbatim>\<open>gps_coordinates\<close> computed from \<^verbatim>\<open>location_data\<close>.\<close>

definition gps_coordinates_of :: "json \<Rightarrow> py_error + json" where
  "gps_coordinates_of location_data =
     (if \<not> json_truthy location_data then Inr JNull
      else case py_in ''latitude'' location_data of
             Inl e \<Rightarrow> Inl e
           | Inr False \<Rightarrow> Inr JNull
           | Inr True \<Rightarrow>
               (case py_in ''longitude'' location_data of
                  Inl e \<Rightarrow> Inl e
                | Inr False \<Rightarrow> Inr JNull
                | Inr True \<Rightarrow>
                    (case location_data of
                       JObj l \<Rightarrow>
                         Inr (JObj [(''latitude'', dict_get l ''latitude'' JNull),
                                    (''longitude'', dict_get l ''longitude'' JNull)])
                     | _ \<Rightarrow> Inl TypeError)))"

text \<open>
  \<^verbatim>\<open>data.get(k, {}).get("text") if isinstance(data.get(k), dict) else data.get(k)\<close>, and
  the variant with \<^verbatim>\<open>(data.get(k, {}) or {})\<close>.
\<close>

definition display_text :: "(string \<times> json) list \<Rightarrow> string \<Rightarrow> json" where
  "display_text data k =
     (case dict_get data k JNull of
        JObj d \<Rightarrow> dict_get d ''text'' JNull
      | v \<Rightarrow> v)"

definition display_text_or :: "(string \<times> json) list \<Rightarrow> string \<Rightarrow> json" where
  "display_text_or data k =
     (case dict_get data k JNull of
        JObj d \<Rightarrow> dict_get (if d \<noteq> [] then d else []) ''text'' JNull
      | v \<Rightarrow> v)"

text \<open>
  The body of the loop of \<^verbatim>\<open>hydrate_places\<close> after \<^verbatim>\<open>if not data: continue\<close>: the
  record appended to \<^verbatim>\<open>out\<close>. \<^verbatim>\<open>data.get\<close> raises AttributeError when the decoded
  body is not a dict.
\<close>

definition normalize_place :: "json \<Rightarrow> py_error + json" where
  "normalize_place data =
     (case data of
        JObj d \<Rightarrow>
          (case gps_coordinates_of (dict_get d ''location'' (JObj [])) of
             Inl e \<Rightarrow> Inl e
           | Inr gps_coordinates \<Rightarrow>
               Inr (JObj
                 [(''id'', dict_get d ''id'' JNull),
                  (''name'', display_text d ''displayName''),
                  (''resourceName'', dict_get d ''name'' JNull),
                  (''googleMapsUri'', dict_get d ''googleMapsUri'' JNull),
                  (''primaryType'', dict_get d ''primaryType'' JNull),
                  (''primaryTypeDisplayName'', display_text_or d ''primaryTypeDisplayName''),
                  (''types'', dict_get d ''types'' (JArr [])),
                  (''rating'', dict_get d ''rating'' JNull),
                  (''userRatingCount'', dict_get d ''userRatingCount'' JNull),
                  (''priceLevel'', dict_get d ''priceLevel'' JNull),
                  (''priceRange'', dict_get d ''priceRange'' JNull),
                  (''gps_coordinates'', gps_coordinates)]))
      | _ \<Rightarrow> Inl AttributeError)"

text \<open>
  \<^verbatim>\<open>for fut in as_completed(futs)\<close>: the futures in the order they complete, each
  holding what \<^verbatim>\<open>place_details\<close> returned or raised; \<^verbatim>\<open>fut.result()\<close> raises again
  what the call raised.
\<close>

fun hydrate_loop :: "(py_error + json option) list \<Rightarrow> json list \<Rightarrow> py_error + json list" where
  "hydrate_loop [] out = Inr out"
| "hydrate_loop (fut # futs) out =
     (case fut of
        Inl e \<Rightarrow> Inl e
      | Inr None \<Rightarrow> hydrate_loop futs out
      | Inr (Some data) \<Rightarrow>
          if \<not> json_truthy data then hydrate_loop futs out
          else (case normalize_place data of
                  Inl e \<Rightarrow> Inl e
                | Inr r \<Rightarrow> hydrate_loop futs (out @ [r])))"

text \<open>
  The pool runs the lookups concurrently; what the loop sees of that is the order of
  completion, a rearrangement \<open>as_completed\<close> of the submitted names.
  \<^verbatim>\<open>ThreadPoolExecutor\<close> raises ValueError for \<^verbatim>\<open>max_workers <= 0\<close>.
\<close>

definition hydrate_places ::
  "int \<Rightarrow> detail_oracle \<Rightarrow> (string list \<Rightarrow> string list) \<Rightarrow> string list \<Rightarrow> py_error + json list" where
  "hydrate_places MAX_WORKERS get as_completed place_names =
     (if MAX_WORKERS \<le> 0 then Inl ValueError
      else hydrate_loop (map (place_details get) (as_completed place_names)) [])"

section \<open>Notions used to state the properties\<close>

text \<open>The Region invariant of the data model: north \<open>\<ge>\<close> south and east \<open>\<ge>\<close> west.\<close>

definition region_ok :: "bbox \<Rightarrow> bool" where
  "region_ok b = (bottom b \<le> top' b \<and> left b \<le> right b)"

text \<open>The bounds of \<open>q\<close> lie within the bounds of \<open>b\<close>.\<close>

definition inside_of :: "bbox \<Rightarrow> bbox \<Rightarrow> bool" where
  "inside_of q b =
     (bottom b \<le> bottom q \<and> top' q \<le> top' b \<and> left b \<le> left q \<and> right q \<le> right b)"






text \<open>
  A name whose lookup yields a record that \<^verbatim>\<open>hydrate_places\<close> keeps: the lookup returned
  data, and the data is not empty.
\<close>

definition found :: "detail_oracle \<Rightarrow> string \<Rightarrow> bool" where
  "found get n =
     (case place_details get n of
        Inr (Some data) \<Rightarrow> json_truthy data
      | _ \<Rightarrow> False)"

section \<open>Example inputs\<close>

definition unit_box :: bbox where
  "unit_box = \<lparr>top' = 1, bottom = 0, left = 0, right = 1\<rparr>"


text \<open>A geocoder that answers every city with the unit box.\<close>

definition nominatim_unit :: geocode_oracle where
  "nominatim_unit city =
     Inr \<lparr>status_code = 200, json_body = Some [[(''boundingbox'', [0, 1, 0, 1])]]\<rparr>"

text \<open>
  Count services: one that always answers \<^verbatim>\<open>{"count": s}\<close>, one that answers 250 to the
  first request and 2 afterwards, one that answers without a count field, one that is
  unavailable (status 503), one whose requests time out.
\<close>

definition count_reply :: "string \<Rightarrow> count_oracle" where
  "count_reply s k c = Inr \<lparr>status_code = 200, json_body = Some [(''count'', s)]\<rparr>"

definition count_250_then_2 :: count_oracle where
  "count_250_then_2 k c =
     Inr \<lparr>status_code = 200, json_body = Some [(''count'', if k = 0 then ''250'' else ''2'')]\<rparr>"

definition count_no_field :: count_oracle where
  "count_no_field k c = Inr \<lparr>status_code = 200, json_body = Some []\<rparr>"

definition count_unavailable :: count_oracle where
  "count_unavailable k c = Inr \<lparr>status_code = 503, json_body = None\<rparr>"


text \<open>Listing services, likewise.\<close>

definition list_reply :: "place_json list \<Rightarrow> listing_oracle" where
  "list_reply ps k c = Inr \<lparr>status_code = 200, json_body = Some [(''places'', ps)]\<rparr>"

definition listing_ab :: listing_oracle where
  "listing_ab = list_reply [[(''name'', ''places/b'')], [(''id'', ''places/a'')],
                            [(''name'', []), (''id'', ''places/b'')], []]"

definition list_no_field :: listing_oracle where
  "list_no_field k c = Inr \<lparr>status_code = 200, json_body = Some []\<rparr>"

definition list_unavailable :: listing_oracle where
  "list_unavailable k c = Inr \<lparr>status_code = 503, json_body = None\<rparr>"

definition list_timeout :: listing_oracle where
  "list_timeout k c = Inl RequestException"

text \<open>
  Detail services: one that knows \<^verbatim>\<open>places/a\<close> and \<^verbatim>\<open>places/b\<close> and answers 404 for
  every other name, one that answers every name with the empty record, one that is
  unavailable (status 500).
\<close>

definition detail_catalog :: detail_oracle where
  "detail_catalog n =
     (if n = ''places/a'' then
        Inr \<lparr>status_code = 200,
             json_body = Some (JObj [(''id'', JStr ''a''),
                                     (''displayName'', JObj [(''text'', JStr ''Cafe A'')]),
                                     (''location'', JObj [(''latitude'', JNum 1),
                                                          (''longitude'', JNum 2)])])\<rparr>
      else if n = ''places/b'' then
        Inr \<lparr>status_code = 200, json_body = Some (JObj [(''id'', JStr ''b'')])\<rparr>
      else Inr \<lparr>status_code = 404, json_body = None\<rparr>)"

definition detail_empty :: detail_oracle where
  "detail_empty n = Inr \<lparr>status_code = 200, json_body = Some (JObj [])\<rparr>"

definition detail_unavailable :: detail_oracle where
  "detail_unavailable n = Inr \<lparr>status_code = 500, json_body = None\<rparr>"

section \<open>Properties\<close>

subsection \<open>Auxiliary facts\<close>


lemma length_split_bbox: "length (split_bbox b) = 4"
  by (simp add: split_bbox_def Let_def)





lemma split_bbox_ok:
  "region_ok b \<Longrightarrow> q \<in> set (split_bbox b) \<Longrightarrow> region_ok q \<and> inside_of q b"
  by (auto simp: split_bbox_def Let_def region_ok_def inside_of_def)



lemma py_int_0: "py_int ''0'' = Inr 0"
  by code_simp

lemma py_int_1: "py_int ''1'' = Inr 1"
  by code_simp

lemma py_int_2: "py_int ''2'' = Inr 2"
  by code_simp

lemma py_int_250: "py_int ''250'' = Inr 250"
  by code_simp

lemma initial_state_simps [simp]:
  "ids (initial_state b) = {}" "stack (initial_state b) = [b]" "calls (initial_state b) = []"
  by (simp_all add: initial_state_def)

lemma unit_box_ok: "region_ok unit_box"
  by (simp add: region_ok_def unit_box_def)

lemma fold_insert_set: "fold insert xs A = A \<union> set xs"
  by (induction xs arbitrary: A) auto

subsection \<open>Splitting a region\<close>



text \<open>
  Claim C8. For every region with north \<open>\<ge>\<close> south and east \<open>\<ge>\<close> west, each of the four
  children of \<open>split_bbox\<close> satisfies the same invariant and lies within the bounds of
  the parent. Hence an iteration of the decomposition loop that starts from a worklist of
  regions satisfying the invariant leaves a worklist of regions satisfying it.
\<close>

theorem split_bbox_preserves_region_invariant:
  "(region_ok b \<longrightarrow> (\<forall>q\<in>set (split_bbox b). region_ok q \<and> inside_of q b)) \<and>
   (stack st \<noteq> [] \<and> list_all region_ok (stack st) \<and> loop_body count_api list_api st = Inr st'
      \<longrightarrow> list_all region_ok (stack st'))"
proof -
  have one: "region_ok b \<longrightarrow> (\<forall>q\<in>set (split_bbox b). region_ok q \<and> inside_of q b)"
    using split_bbox_ok by blast
  have two: "list_all region_ok (stack st')"
    if ne: "stack st \<noteq> []" and all: "list_all region_ok (stack st)"
      and body: "loop_body count_api list_api st = Inr st'"
  proof -
    from ne all have box: "region_ok (last (stack st))"
      by (simp add: list_all_iff)
    from all have rest: "list_all region_ok (butlast (stack st))"
      by (auto simp: list_all_iff dest: in_set_butlastD)
    from box have kids: "list_all region_ok (split_bbox (last (stack st)))"
      using split_bbox_ok by (auto simp: list_all_iff)
    from body have "stack st' = butlast (stack st) \<or>
        stack st' = butlast (stack st) @ split_bbox (last (stack st))"
      by (auto simp: loop_body_def Let_def split: sum.splits if_splits)
    with rest kids show ?thesis
      by auto
  qed
  from one two show ?thesis by blast
qed

theorem split_bbox_preserves_region_invariant_witness:
  "list_all (\<lambda>q. region_ok q \<and> inside_of q unit_box) (split_bbox unit_box) \<and>
   list_all region_ok (split_bbox unit_box)"
proof -
  have a: "stack (initial_state unit_box) \<noteq> []"
    and b: "list_all region_ok (stack (initial_state unit_box))"
    by (simp_all add: unit_box_ok)
  have c: "loop_body (count_reply ''250'') list_timeout (initial_state unit_box) =
      Inr \<lparr>ids = {}, stack = split_bbox unit_box,
           calls = [CountCall (bbox_center_radius_m unit_box)]\<rparr>"
    by (simp add: loop_body_def Let_def aggregate_count_for_bbox_def count_reply_def
          raise_for_status_def dict_get_def py_int_250 COUNT_LIMIT_def)
  from split_bbox_preserves_region_invariant[of unit_box "initial_state unit_box"
      "count_reply ''250''" list_timeout] unit_box_ok a b c
  show ?thesis
    by (simp add: list_all_iff)
qed

subsection \<open>The covering circle\<close>



subsection \<open>One iteration of the decomposition loop\<close>

lemma loop_body_count_http_error:
  assumes "aggregate_count_for_bbox (count_api (length (calls st))) (last (stack st)) = Inl HTTPError"
  shows "loop_body count_api list_api st =
     Inr \<lparr>ids = ids st,
          stack = (if length (butlast (stack st)) < 2048
                   then butlast (stack st) @ split_bbox (last (stack st))
                   else butlast (stack st)),
          calls = calls st @ [CountCall (bbox_center_radius_m (last (stack st)))]\<rparr>"
  using assms by (simp add: loop_body_def Let_def)


lemma loop_body_count_zero:
  assumes "aggregate_count_for_bbox (count_api (length (calls st))) (last (stack st)) = Inr 0"
  shows "loop_body count_api list_api st =
     Inr \<lparr>ids = ids st, stack = butlast (stack st),
          calls = calls st @ [CountCall (bbox_center_radius_m (last (stack st)))]\<rparr>"
  using assms by (simp add: loop_body_def Let_def)

lemma loop_body_above_limit:
  assumes "aggregate_count_for_bbox (count_api (length (calls st))) (last (stack st)) = Inr cnt"
    and "COUNT_LIMIT < cnt"
  shows "loop_body count_api list_api st =
     Inr \<lparr>ids = ids st, stack = butlast (stack st) @ split_bbox (last (stack st)),
          calls = calls st @ [CountCall (bbox_center_radius_m (last (stack st)))]\<rparr>"
  using assms by (simp add: loop_body_def Let_def COUNT_LIMIT_def)


lemma loop_body_list_http_error:
  assumes "aggregate_count_for_bbox (count_api (length (calls st))) (last (stack st)) = Inr cnt"
    and "cnt \<noteq> 0" and "cnt \<le> COUNT_LIMIT"
    and "aggregate_places_for_bbox (list_api (Suc (length (calls st)))) (last (stack st)) = Inl HTTPError"
  shows "loop_body count_api list_api st =
     Inr \<lparr>ids = ids st, stack = butlast (stack st) @ split_bbox (last (stack st)),
          calls = calls st @ [CountCall (bbox_center_radius_m (last (stack st))),
                              ListCall (bbox_center_radius_m (last (stack st)))]\<rparr>"
  using assms by (simp add: loop_body_def Let_def)


text \<open>What the example services answer.\<close>

lemma count_reply_0: "aggregate_count_for_bbox (count_reply ''0'' k) b = Inr 0"
  by (simp add: aggregate_count_for_bbox_def count_reply_def raise_for_status_def dict_get_def
        py_int_0)

lemma count_reply_1: "aggregate_count_for_bbox (count_reply ''1'' k) b = Inr 1"
  by (simp add: aggregate_count_for_bbox_def count_reply_def raise_for_status_def dict_get_def
        py_int_1)

lemma count_reply_250: "aggregate_count_for_bbox (count_reply ''250'' k) b = Inr 250"
  by (simp add: aggregate_count_for_bbox_def count_reply_def raise_for_status_def dict_get_def
        py_int_250)

lemma count_unavailable_raises: "aggregate_count_for_bbox (count_unavailable k) b = Inl HTTPError"
  by (simp add: aggregate_count_for_bbox_def count_unavailable_def raise_for_status_def)


lemma list_unavailable_raises: "aggregate_places_for_bbox (list_unavailable k) b = Inl HTTPError"
  by (simp add: aggregate_places_for_bbox_def list_unavailable_def raise_for_status_def)



text \<open>
  Claim C1. Take a popped region whose count request succeeds with count \<open>cnt\<close>. If
  \<open>cnt = 0\<close>, the iteration only removes the region: the set of identifiers is unchanged
  and the one request made is the count request. If \<open>cnt\<close> is above \<open>COUNT_LIMIT\<close> (which
  is 100), the region is replaced on the worklist by its four quadrant children, all
  pushed, and again the one request made is the count request: no listing request.
\<close>

theorem count_zero_drops_count_above_limit_splits:
  assumes "stack st \<noteq> []"
    and "aggregate_count_for_bbox (count_api (length (calls st))) (last (stack st)) = Inr cnt"
  shows "(cnt = 0 \<longrightarrow>
            loop_body count_api list_api st =
              Inr \<lparr>ids = ids st, stack = butlast (stack st),
                   calls = calls st @ [CountCall (bbox_center_radius_m (last (stack st)))]\<rparr>) \<and>
         (COUNT_LIMIT < cnt \<longrightarrow>
            loop_body count_api list_api st =
              Inr \<lparr>ids = ids st, stack = butlast (stack st) @ split_bbox (last (stack st)),
                   calls = calls st @ [CountCall (bbox_center_radius_m (last (stack st)))]\<rparr> \<and>
            length (split_bbox (last (stack st))) = 4) \<and>
         COUNT_LIMIT = 100"
  using assms loop_body_count_zero[of count_api st list_api]
    loop_body_above_limit[of count_api st cnt list_api]
  by (simp add: length_split_bbox COUNT_LIMIT_def)

text \<open>
  On the unit box: with count 0 the worklist ends empty, with count 250 it holds the four
  quadrants. The listing service of the example would raise if it were asked.
\<close>

theorem count_zero_drops_count_above_limit_splits_witness:
  "loop_body (count_reply ''0'') list_timeout (initial_state unit_box) =
     Inr \<lparr>ids = {}, stack = [], calls = [CountCall (bbox_center_radius_m unit_box)]\<rparr> \<and>
   loop_body (count_reply ''250'') list_timeout (initial_state unit_box) =
     Inr \<lparr>ids = {}, stack = split_bbox unit_box,
          calls = [CountCall (bbox_center_radius_m unit_box)]\<rparr>"
proof -
  have ne: "stack (initial_state unit_box) \<noteq> []"
    by simp
  have lim: "COUNT_LIMIT < 250"
    by (simp add: COUNT_LIMIT_def)
  from count_zero_drops_count_above_limit_splits[OF ne count_reply_0, where list_api = list_timeout]
  have a: "loop_body (count_reply ''0'') list_timeout (initial_state unit_box) =
     Inr \<lparr>ids = {}, stack = [], calls = [CountCall (bbox_center_radius_m unit_box)]\<rparr>"
    by simp
  from count_zero_drops_count_above_limit_splits[OF ne count_reply_250, where list_api = list_timeout]
    lim
  have b: "loop_body (count_reply ''250'') list_timeout (initial_state unit_box) =
     Inr \<lparr>ids = {}, stack = split_bbox unit_box,
          calls = [CountCall (bbox_center_radius_m unit_box)]\<rparr>"
    by simp
  from a b show ?thesis by (rule conjI)
qed

subsection \<open>Failures of the count request\<close>




lemma get_city_unit: "get_city_bbox nominatim_unit city = Inr unit_box"
  by (simp add: get_city_bbox_def nominatim_unit_def raise_for_status_def unit_box_def)




text \<open>
  Claim C9. The bound 2048 on the worklist is tested in the handler of a failed count
  request, before the children are pushed: they are pushed exactly when fewer than 2048
  regions are left after the pop. After a failed listing request and after a count above
  \<open>COUNT_LIMIT\<close> the four children are pushed whatever the length, which grows by 3. So
  the worklist can exceed 2048: with 2047 regions left after the pop, a failed count
  request leaves 2051.
\<close>

theorem ceiling_tested_on_count_failure_only:
  assumes "stack st \<noteq> []"
  shows "(aggregate_count_for_bbox (count_api (length (calls st))) (last (stack st)) = Inl HTTPError
            \<longrightarrow> (\<exists>st'. loop_body count_api list_api st = Inr st' \<and>
                   stack st' = (if length (butlast (stack st)) < 2048
                                then butlast (stack st) @ split_bbox (last (stack st))
                                else butlast (stack st)))) \<and>
         (aggregate_count_for_bbox (count_api (length (calls st))) (last (stack st)) = Inr cnt \<and>
          COUNT_LIMIT < cnt
            \<longrightarrow> (\<exists>st'. loop_body count_api list_api st = Inr st' \<and>
                   stack st' = butlast (stack st) @ split_bbox (last (stack st)) \<and>
                   length (stack st') = length (stack st) + 3)) \<and>
         (aggregate_count_for_bbox (count_api (length (calls st))) (last (stack st)) = Inr cnt \<and>
          cnt \<noteq> 0 \<and> cnt \<le> COUNT_LIMIT \<and>
          aggregate_places_for_bbox (list_api (Suc (length (calls st)))) (last (stack st))
            = Inl HTTPError
            \<longrightarrow> (\<exists>st'. loop_body count_api list_api st = Inr st' \<and>
                   stack st' = butlast (stack st) @ split_bbox (last (stack st)) \<and>
                   length (stack st') = length (stack st) + 3)) \<and>
         (\<exists>s s'. length (butlast (stack s)) = 2047 \<and>
                 loop_body count_unavailable list_api s = Inr s' \<and> length (stack s') = 2051)"
proof -
  from assms have len: "length (butlast (stack st)) + 4 = length (stack st) + 3"
    by (cases "stack st" rule: rev_cases) simp_all
  have one: "aggregate_count_for_bbox (count_api (length (calls st))) (last (stack st)) = Inl HTTPError
      \<longrightarrow> (\<exists>st'. loop_body count_api list_api st = Inr st' \<and>
             stack st' = (if length (butlast (stack st)) < 2048
                          then butlast (stack st) @ split_bbox (last (stack st))
                          else butlast (stack st)))"
    using loop_body_count_http_error[of count_api st list_api] by auto
  have two: "aggregate_count_for_bbox (count_api (length (calls st))) (last (stack st)) = Inr cnt \<and>
      COUNT_LIMIT < cnt
      \<longrightarrow> (\<exists>st'. loop_body count_api list_api st = Inr st' \<and>
             stack st' = butlast (stack st) @ split_bbox (last (stack st)) \<and>
             length (stack st') = length (stack st) + 3)"
    using loop_body_above_limit[of count_api st cnt list_api] len
    by (auto simp: length_split_bbox)
  have three: "aggregate_count_for_bbox (count_api (length (calls st))) (last (stack st)) = Inr cnt \<and>
      cnt \<noteq> 0 \<and> cnt \<le> COUNT_LIMIT \<and>
      aggregate_places_for_bbox (list_api (Suc (length (calls st)))) (last (stack st))
        = Inl HTTPError
      \<longrightarrow> (\<exists>st'. loop_body count_api list_api st = Inr st' \<and>
             stack st' = butlast (stack st) @ split_bbox (last (stack st)) \<and>
             length (stack st') = length (stack st) + 3)"
    using loop_body_list_http_error[of count_api st cnt list_api] len
    by (auto simp: length_split_bbox)
  let ?s = "\<lparr>ids = {}, stack = replicate 2048 unit_box, calls = []\<rparr> :: state"
  have "loop_body count_unavailable list_api ?s =
      Inr \<lparr>ids = {}, stack = butlast (replicate 2048 unit_box) @ split_bbox unit_box,
           calls = [CountCall (bbox_center_radius_m unit_box)]\<rparr>"
    using loop_body_count_http_error[of count_unavailable ?s list_api, OF count_unavailable_raises]
    by simp
  then have four: "\<exists>s s'. length (butlast (stack s)) = 2047 \<and>
      loop_body count_unavailable list_api s = Inr s' \<and> length (stack s') = 2051"
    by (intro exI[of _ ?s] exI[of _ "\<lparr>ids = {}, stack = butlast (replicate 2048 unit_box) @ split_bbox unit_box,
           calls = [CountCall (bbox_center_radius_m unit_box)]\<rparr>"])
       (simp add: length_split_bbox)
  from one two three four show ?thesis by blast
qed

text \<open>
  A worklist of 3000 regions: after a count above the limit, and after a failed listing
  request, it holds 3003.
\<close>

theorem ceiling_tested_on_count_failure_only_witness:
  "(\<exists>st'. loop_body (count_reply ''250'') list_timeout
            \<lparr>ids = {}, stack = replicate 3000 unit_box, calls = []\<rparr> = Inr st' \<and>
          length (stack st') = 3003) \<and>
   (\<exists>st'. loop_body (count_reply ''1'') list_unavailable
            \<lparr>ids = {}, stack = replicate 3000 unit_box, calls = []\<rparr> = Inr st' \<and>
          length (stack st') = 3003) \<and>
   (\<exists>st'. loop_body count_unavailable list_timeout
            \<lparr>ids = {}, stack = replicate 3000 unit_box, calls = []\<rparr> = Inr st' \<and>
          length (stack st') = 2999)"
proof -
  let ?st = "\<lparr>ids = {}, stack = replicate 3000 unit_box, calls = []\<rparr> :: state"
  have ne: "stack ?st \<noteq> []"
    by simp
  have lim: "COUNT_LIMIT < 250" "(1::int) \<noteq> 0" "1 \<le> COUNT_LIMIT"
    by (simp_all add: COUNT_LIMIT_def)
  have c250: "aggregate_count_for_bbox (count_reply ''250'' (length (calls ?st))) (last (stack ?st))
      = Inr 250"
    by (rule count_reply_250)
  have c1: "aggregate_count_for_bbox (count_reply ''1'' (length (calls ?st))) (last (stack ?st))
      = Inr 1"
    by (rule count_reply_1)
  have l: "aggregate_places_for_bbox (list_unavailable (Suc (length (calls ?st)))) (last (stack ?st))
      = Inl HTTPError"
    by (rule list_unavailable_raises)
  have cu: "aggregate_count_for_bbox (count_unavailable (length (calls ?st))) (last (stack ?st))
      = Inl HTTPError"
    by (rule count_unavailable_raises)
  have a: "\<exists>st'. loop_body (count_reply ''250'') list_timeout ?st = Inr st' \<and>
      length (stack st') = 3003"
    using ceiling_tested_on_count_failure_only[OF ne, where count_api = "count_reply ''250''"
        and cnt = 250 and list_api = list_timeout] c250 lim
    by auto
  have b: "\<exists>st'. loop_body (count_reply ''1'') list_unavailable ?st = Inr st' \<and>
      length (stack st') = 3003"
    using ceiling_tested_on_count_failure_only[OF ne, where count_api = "count_reply ''1''"
        and cnt = 1 and list_api = list_unavailable] c1 l lim
    by auto
  have c: "\<exists>st'. loop_body count_unavailable list_timeout ?st = Inr st' \<and>
      length (stack st') = 2999"
    using ceiling_tested_on_count_failure_only[OF ne, where count_api = count_unavailable
        and list_api = list_timeout] cu
    by auto
  from a b c show ?thesis by blast
qed

subsection \<open>Responses with missing fields\<close>

lemma names_loop_skip:
  "map_of p ''name'' = None \<Longrightarrow> map_of p ''id'' = None \<Longrightarrow>
     names_loop (p # ps) acc = names_loop ps acc"
  by (simp add: py_or_def truthy_def Let_def)

lemma names_loop_filter:
  "names_loop ps acc =
     names_loop (filter (\<lambda>p. map_of p ''name'' \<noteq> None \<or> map_of p ''id'' \<noteq> None) ps) acc"
proof (induction ps arbitrary: acc)
  case Nil
  show ?case by simp
next
  case (Cons p ps)
  show ?case
  proof (cases "map_of p ''name'' = None \<and> map_of p ''id'' = None")
    case True
    then show ?thesis
      using Cons.IH[of acc] by (simp add: py_or_def truthy_def Let_def)
  next
    case False
    then show ?thesis
      using Cons.IH by (auto simp: Let_def)
  qed
qed

lemma count_without_field:
  assumes "post (bbox_center_radius_m b) = Inr resp" and "raise_for_status resp = Inr ()"
    and "json_body resp = Some data" and "map_of data ''count'' = None"
  shows "aggregate_count_for_bbox post b = Inr 0"
  using assms by (simp add: aggregate_count_for_bbox_def dict_get_def py_int_0)

lemma places_without_field:
  assumes "post (bbox_center_radius_m b) = Inr resp" and "raise_for_status resp = Inr ()"
    and "json_body resp = Some data" and "map_of data ''places'' = None"
  shows "aggregate_places_for_bbox post b = Inr []"
  using assms by (simp add: aggregate_places_for_bbox_def dict_get_def)

text \<open>
  Claim C10. A count response that is successful (no error status, a JSON body) and has
  no \<^verbatim>\<open>count\<close> field is read as count 0, so the iteration only removes the region:
  no listing request and no split. A successful listing response with no \<^verbatim>\<open>places\<close>
  field yields no identifier, and the entries of a listing that have neither
  \<^verbatim>\<open>name\<close> nor \<^verbatim>\<open>id\<close> are skipped.
\<close>

theorem missing_fields_default:
  "(post (bbox_center_radius_m b) = Inr resp \<and> raise_for_status resp = Inr () \<and>
    json_body resp = Some data \<and> map_of data ''count'' = None
      \<longrightarrow> aggregate_count_for_bbox post b = Inr 0) \<and>
   (stack st \<noteq> [] \<and>
    count_api (length (calls st)) (bbox_center_radius_m (last (stack st))) = Inr resp \<and>
    raise_for_status resp = Inr () \<and> json_body resp = Some data \<and> map_of data ''count'' = None
      \<longrightarrow> loop_body count_api list_api st =
            Inr \<lparr>ids = ids st, stack = butlast (stack st),
                 calls = calls st @ [CountCall (bbox_center_radius_m (last (stack st)))]\<rparr>) \<and>
   (lpost (bbox_center_radius_m b) = Inr lresp \<and> raise_for_status lresp = Inr () \<and>
    json_body lresp = Some ldata \<and> map_of ldata ''places'' = None
      \<longrightarrow> aggregate_places_for_bbox lpost b = Inr []) \<and>
   names_loop ps acc =
     names_loop (filter (\<lambda>p. map_of p ''name'' \<noteq> None \<or> map_of p ''id'' \<noteq> None) ps) acc \<and>
   (map_of p ''name'' = None \<and> map_of p ''id'' = None
      \<longrightarrow> names_loop (p # ps) acc = names_loop ps acc)"
proof -
  have two: "loop_body count_api list_api st =
      Inr \<lparr>ids = ids st, stack = butlast (stack st),
           calls = calls st @ [CountCall (bbox_center_radius_m (last (stack st)))]\<rparr>"
    if "count_api (length (calls st)) (bbox_center_radius_m (last (stack st))) = Inr resp"
      and "raise_for_status resp = Inr ()" and "json_body resp = Some data"
      and "map_of data ''count'' = None"
    using count_without_field[of "count_api (length (calls st))" "last (stack st)" resp data, OF that]
    by (rule loop_body_count_zero)
  show ?thesis
    using count_without_field[of post b resp data] two
      places_without_field[of lpost b lresp ldata] names_loop_filter[of ps acc]
      names_loop_skip[of p ps acc]
    by blast
qed

theorem missing_fields_default_witness:
  "aggregate_count_for_bbox (count_no_field 0) unit_box = Inr 0 \<and>
   loop_body count_no_field list_timeout (initial_state unit_box) =
     Inr \<lparr>ids = {}, stack = [], calls = [CountCall (bbox_center_radius_m unit_box)]\<rparr> \<and>
   aggregate_places_for_bbox (list_no_field 1) unit_box = Inr [] \<and>
   names_loop [[(''rating'', ''5'')], [(''name'', ''places/a'')]] [] = [''places/a'']"
proof -
  let ?resp = "\<lparr>status_code = 200, json_body = Some []\<rparr> :: count_json response"
  let ?lresp = "\<lparr>status_code = 200, json_body = Some []\<rparr> :: places_json response"
  note inst = missing_fields_default[where post = "count_no_field 0" and b = unit_box
      and resp = ?resp and data = "[]" and st = "initial_state unit_box"
      and count_api = count_no_field and list_api = list_timeout
      and lpost = "list_no_field 1" and lresp = ?lresp and ldata = "[]"
      and ps = "[[(''rating'', ''5'')], [(''name'', ''places/a'')]]" and acc = "[]"
      and p = "[(''rating'', ''5'')]"]
  have a: "count_no_field 0 (bbox_center_radius_m unit_box) = Inr ?resp"
    "count_no_field (length (calls (initial_state unit_box)))
       (bbox_center_radius_m (last (stack (initial_state unit_box)))) = Inr ?resp"
    "raise_for_status ?resp = Inr ()" "json_body ?resp = Some []"
    "map_of ([] :: count_json) ''count'' = None" "stack (initial_state unit_box) \<noteq> []"
    by (simp_all add: count_no_field_def raise_for_status_def)
  have b: "list_no_field 1 (bbox_center_radius_m unit_box) = Inr ?lresp"
    "raise_for_status ?lresp = Inr ()" "json_body ?lresp = Some []"
    "map_of ([] :: places_json) ''places'' = None"
    by (simp_all add: list_no_field_def raise_for_status_def)
  have c: "map_of [(''rating'', ''5'')] ''name'' = None" "map_of [(''rating'', ''5'')] ''id'' = None"
    by simp_all
  have d: "names_loop (filter (\<lambda>p. map_of p ''name'' \<noteq> None \<or> map_of p ''id'' \<noteq> None)
        [[(''rating'', ''5'')], [(''name'', ''places/a'')]]) [] = [''places/a'']"
    by (simp add: py_or_def truthy_def Let_def)
  from inst a b c d show ?thesis
    by simp
qed

subsection \<open>The set of identifiers\<close>

lemma loop_body_finite_ids:
  assumes "loop_body count_api list_api st = Inr st'" and "finite (ids st)"
  shows "finite (ids st')"
  using assms
  by (auto simp: loop_body_def Let_def fold_insert_set split: sum.splits if_splits)

lemma while_stack_finite_ids:
  assumes "while_stack count_api list_api fuel st = Some (Inr st')" and "finite (ids st)"
  shows "finite (ids st')"
  using assms
proof (induction fuel arbitrary: st)
  case 0
  then show ?case by (simp split: if_splits)
next
  case (Suc n)
  show ?case
  proof (cases "stack st = []")
    case True
    with Suc.prems show ?thesis by simp
  next
    case False
    with Suc.prems obtain s where s: "loop_body count_api list_api st = Inr s"
      and w: "while_stack count_api list_api n s = Some (Inr st')"
      by (auto split: sum.splits)
    show ?thesis
      by (rule Suc.IH[OF w loop_body_finite_ids[OF s Suc.prems(2)]])
  qed
qed

text \<open>
  Claim C7. The identifiers are collected in a set, so none occurs twice however often
  the listing requests return it, and the list the collection phase returns is that set
  sorted: it has no duplicates, it is in ascending order, and it is determined by the
  set of its elements, not by the order in which they were found.
\<close>

theorem collected_ids_sorted_without_duplicates:
  assumes "collect_place_ids_for_city nominatim count_api list_api fuel city = Some (Inr out)"
  shows "distinct out \<and> sorted out \<and> out = sorted_list_of_set (set out) \<and>
         (\<exists>b st. get_city_bbox nominatim city = Inr b \<and>
                 while_stack count_api list_api fuel (initial_state b) = Some (Inr st) \<and>
                 set out = ids st)"
proof -
  from assms obtain b st where b: "get_city_bbox nominatim city = Inr b"
    and st: "while_stack count_api list_api fuel (initial_state b) = Some (Inr st)"
    and out: "out = sorted_list_of_set (ids st)"
    by (auto simp: collect_place_ids_for_city_def split: sum.splits option.splits)
  have fin: "finite (ids st)"
    by (rule while_stack_finite_ids[OF st]) simp
  with out have "set out = ids st"
    by simp
  with b st out show ?thesis
    by auto
qed

text \<open>
  A search in which the first count is 250 and the four quadrants each list
  \<^verbatim>\<open>places/b\<close>, \<^verbatim>\<open>places/a\<close>, \<^verbatim>\<open>places/b\<close>: the result holds each once, in order.
\<close>

lemma search_ab:
  "map_option (map_sum id ids) (while_stack count_250_then_2 listing_ab 5 (initial_state unit_box))
     = Some (Inr {''places/a'', ''places/b''})"
  by (simp add: eval_nat_numeral loop_body_def Let_def listing_ab_def
     aggregate_count_for_bbox_def aggregate_places_for_bbox_def count_250_then_2_def list_reply_def
     raise_for_status_def dict_get_def py_int_250 py_int_2 COUNT_LIMIT_def py_or_def truthy_def
     split_bbox_def unit_box_def insert_commute)

lemma sorted_ab: "sorted_list_of_set {''places/a'', ''places/b''} = [''places/a'', ''places/b'']"
  by code_simp

lemma collect_ab:
  "collect_place_ids_for_city nominatim_unit count_250_then_2 listing_ab 5 ''Springfield''
     = Some (Inr [''places/a'', ''places/b''])"
proof -
  from search_ab obtain st where
    "while_stack count_250_then_2 listing_ab 5 (initial_state unit_box) = Some (Inr st)"
    and "ids st = {''places/a'', ''places/b''}"
    by (cases "while_stack count_250_then_2 listing_ab 5 (initial_state unit_box)")
       (auto simp: map_sum_def split: sum.splits)
  then show ?thesis
    by (simp add: collect_place_ids_for_city_def get_city_unit sorted_ab)
qed

theorem collected_ids_sorted_without_duplicates_witness:
  "collect_place_ids_for_city nominatim_unit count_250_then_2 listing_ab 5 ''Springfield''
     = Some (Inr [''places/a'', ''places/b'']) \<and>
   distinct [''places/a'', ''places/b''] \<and> sorted [''places/a'', ''places/b'']"
  using collected_ids_sorted_without_duplicates[OF collect_ab] collect_ab
  by blast

subsection \<open>The listing request\<close>







subsection \<open>Hydration\<close>

lemma place_details_404:
  "get n = Inr resp \<Longrightarrow> status_code resp = 404 \<Longrightarrow> place_details get n = Inr None"
  by (simp add: place_details_def)

lemma not_found_None: "place_details get n = Inr None \<Longrightarrow> \<not> found get n"
  by (simp add: found_def)

lemma hydrate_loop_Inr:
  assumes "hydrate_loop (map (place_details get) ns) acc = Inr out"
  shows "\<exists>new. out = acc @ new \<and>
           list_all2 (\<lambda>r n. \<exists>data. place_details get n = Inr (Some data) \<and> normalize_place data = Inr r)
             new (filter (found get) ns)"
  using assms
proof (induction ns arbitrary: acc)
  case Nil
  then show ?case by simp
next
  case (Cons n ns)
  show ?case
  proof (cases "place_details get n")
    case (Inl e)
    with Cons.prems show ?thesis by simp
  next
    case (Inr d)
    show ?thesis
    proof (cases d)
      case None
      with Inr Cons.prems Cons.IH[of acc] show ?thesis
        by (simp add: found_def)
    next
      case (Some data)
      show ?thesis
      proof (cases "json_truthy data")
        case False
        with Some Inr Cons.prems Cons.IH[of acc] show ?thesis
          by (simp add: found_def)
      next
        case True
        with Some Inr Cons.prems obtain r where r: "normalize_place data = Inr r"
          and rest: "hydrate_loop (map (place_details get) ns) (acc @ [r]) = Inr out"
          by (auto split: sum.splits)
        from Cons.IH[OF rest] obtain new where new: "out = (acc @ [r]) @ new"
          and all: "list_all2 (\<lambda>r n. \<exists>data. place_details get n = Inr (Some data) \<and>
                      normalize_place data = Inr r) new (filter (found get) ns)"
          by blast
        from True Some Inr have f: "found get n"
          by (simp add: found_def)
        from new have "out = acc @ (r # new)"
          by simp
        moreover from all f r Some Inr
        have "list_all2 (\<lambda>r n. \<exists>data. place_details get n = Inr (Some data) \<and>
                normalize_place data = Inr r) (r # new) (filter (found get) (n # ns))"
          by simp
        ultimately show ?thesis
          by blast
      qed
    qed
  qed
qed

lemma hydrate_loop_raises:
  assumes "n \<in> set ns" and "place_details get n = Inl e"
  shows "\<exists>e'. hydrate_loop (map (place_details get) ns) acc = Inl e'"
  using assms
proof (induction ns arbitrary: acc)
  case Nil
  then show ?case by simp
next
  case (Cons m ns)
  show ?case
  proof (cases "m = n")
    case True
    with Cons.prems show ?thesis by simp
  next
    case False
    with Cons.prems have "n \<in> set ns"
      by simp
    from Cons.IH[OF this Cons.prems(2)]
    have "\<And>acc. \<exists>e'. hydrate_loop (map (place_details get) ns) acc = Inl e'"
      by blast
    then show ?thesis
      by (auto split: sum.splits option.splits)
  qed
qed

lemma length_filter_mset: "mset xs = mset ys \<Longrightarrow> length (filter P xs) = length (filter P ys)"
proof -
  assume "mset xs = mset ys"
  then have "mset (filter P xs) = mset (filter P ys)"
    by simp
  then show ?thesis
    by (rule mset_eq_length)
qed

text \<open>
  Claim C4, as amended. When the hydration stage returns a list, the list has at most as
  many records as there are input refs: a ref whose lookup returns NotFound (status 404)
  or an empty record contributes none, and every other ref contributes exactly one, the
  record normalised from what its lookup returned, in the order of completion. A lookup
  that fails in another way is not dropped: the stage raises and returns no list.
\<close>

theorem hydrate_places_keeps_found_refs:
  assumes "mset (as_completed place_names) = mset place_names"
  shows "(hydrate_places MAX_WORKERS get as_completed place_names = Inr out \<longrightarrow>
            length out \<le> length place_names \<and>
            length out = length (filter (found get) place_names) \<and>
            list_all2 (\<lambda>r n. \<exists>data. place_details get n = Inr (Some data) \<and>
                               normalize_place data = Inr r)
              out (filter (found get) (as_completed place_names))) \<and>
         (\<forall>n resp. get n = Inr resp \<and> status_code resp = 404
            \<longrightarrow> place_details get n = Inr None \<and> \<not> found get n) \<and>
         (\<forall>n e. n \<in> set place_names \<and> place_details get n = Inl e
            \<longrightarrow> (\<exists>e'. hydrate_places MAX_WORKERS get as_completed place_names = Inl e'))"
proof -
  have one: "length out \<le> length place_names \<and>
      length out = length (filter (found get) place_names) \<and>
      list_all2 (\<lambda>r n. \<exists>data. place_details get n = Inr (Some data) \<and> normalize_place data = Inr r)
        out (filter (found get) (as_completed place_names))"
    if h: "hydrate_places MAX_WORKERS get as_completed place_names = Inr out"
  proof -
    from h have "hydrate_loop (map (place_details get) (as_completed place_names)) [] = Inr out"
      by (simp add: hydrate_places_def split: if_splits)
    from hydrate_loop_Inr[OF this]
    have all: "list_all2 (\<lambda>r n. \<exists>data. place_details get n = Inr (Some data) \<and>
        normalize_place data = Inr r) out (filter (found get) (as_completed place_names))"
      by simp
    then have "length out = length (filter (found get) (as_completed place_names))"
      by (rule list_all2_lengthD)
    with length_filter_mset[OF assms, of "found get"]
    have len: "length out = length (filter (found get) place_names)"
      by simp
    have "length (filter (found get) place_names) \<le> length place_names"
      by (rule length_filter_le)
    with len all show ?thesis
      by simp
  qed
  have two: "\<forall>n resp. get n = Inr resp \<and> status_code resp = 404
      \<longrightarrow> place_details get n = Inr None \<and> \<not> found get n"
    using place_details_404 not_found_None by blast
  have three: "\<exists>e'. hydrate_places MAX_WORKERS get as_completed place_names = Inl e'"
    if n: "n \<in> set place_names" and e: "place_details get n = Inl e" for n e
  proof (cases "MAX_WORKERS \<le> 0")
    case True
    then show ?thesis
      by (simp add: hydrate_places_def)
  next
    case False
    from n assms have "n \<in> set (as_completed place_names)"
      by (metis set_mset_mset)
    from hydrate_loop_raises[OF this e, of "[]"] False show ?thesis
      by (simp add: hydrate_places_def)
  qed
  from one two three show ?thesis
    by blast
qed

lemma catalog_a:
  "place_details detail_catalog ''places/a'' =
     Inr (Some (JObj [(''id'', JStr ''a''),
                      (''displayName'', JObj [(''text'', JStr ''Cafe A'')]),
                      (''location'', JObj [(''latitude'', JNum 1), (''longitude'', JNum 2)])]))"
  by (simp add: place_details_def detail_catalog_def raise_for_status_def)

lemma catalog_b:
  "place_details detail_catalog ''places/b'' = Inr (Some (JObj [(''id'', JStr ''b'')]))"
  by (simp add: place_details_def detail_catalog_def raise_for_status_def)

lemma catalog_gone: "place_details detail_catalog ''places/gone'' = Inr None"
  by (simp add: place_details_def detail_catalog_def)

lemma hydrate_catalog:
  "hydrate_places 16 detail_catalog rev [''places/a'', ''places/gone'', ''places/b''] =
     Inr [JObj [(''id'', JStr ''b''), (''name'', JNull), (''resourceName'', JNull),
                (''googleMapsUri'', JNull), (''primaryType'', JNull),
                (''primaryTypeDisplayName'', JNull), (''types'', JArr []), (''rating'', JNull),
                (''userRatingCount'', JNull), (''priceLevel'', JNull), (''priceRange'', JNull),
                (''gps_coordinates'', JNull)],
          JObj [(''id'', JStr ''a''), (''name'', JStr ''Cafe A''), (''resourceName'', JNull),
                (''googleMapsUri'', JNull), (''primaryType'', JNull),
                (''primaryTypeDisplayName'', JNull), (''types'', JArr []), (''rating'', JNull),
                (''userRatingCount'', JNull), (''priceLevel'', JNull), (''priceRange'', JNull),
                (''gps_coordinates'',
                 JObj [(''latitude'', JNum 1), (''longitude'', JNum 2)])]]"
  by (simp add: hydrate_places_def catalog_a catalog_b catalog_gone normalize_place_def
        gps_coordinates_of_def py_in_def dict_get_def display_text_def display_text_or_def)

text \<open>
  Three refs, one not found: two records, in the order of completion (here the reverse
  of submission). With the service unavailable the stage raises.
\<close>

theorem hydrate_places_keeps_found_refs_witness:
  "hydrate_places 16 detail_catalog rev [''places/a'', ''places/gone'', ''places/b''] =
     Inr [JObj [(''id'', JStr ''b''), (''name'', JNull), (''resourceName'', JNull),
                (''googleMapsUri'', JNull), (''primaryType'', JNull),
                (''primaryTypeDisplayName'', JNull), (''types'', JArr []), (''rating'', JNull),
                (''userRatingCount'', JNull), (''priceLevel'', JNull), (''priceRange'', JNull),
                (''gps_coordinates'', JNull)],
          JObj [(''id'', JStr ''a''), (''name'', JStr ''Cafe A''), (''resourceName'', JNull),
                (''googleMapsUri'', JNull), (''primaryType'', JNull),
                (''primaryTypeDisplayName'', JNull), (''types'', JArr []), (''rating'', JNull),
                (''userRatingCount'', JNull), (''priceLevel'', JNull), (''priceRange'', JNull),
                (''gps_coordinates'',
                 JObj [(''latitude'', JNum 1), (''longitude'', JNum 2)])]] \<and>
   length (filter (found detail_catalog) [''places/a'', ''places/gone'', ''places/b'']) = 2 \<and>
   \<not> found detail_catalog ''places/gone'' \<and>
   (\<exists>e'. hydrate_places 16 detail_unavailable rev [''places/a'', ''places/gone'', ''places/b'']
            = Inl e')"
proof -
  let ?names = "[''places/a'', ''places/gone'', ''places/b'']"
  let ?out = "[JObj [(''id'', JStr ''b''), (''name'', JNull), (''resourceName'', JNull),
                (''googleMapsUri'', JNull), (''primaryType'', JNull),
                (''primaryTypeDisplayName'', JNull), (''types'', JArr []), (''rating'', JNull),
                (''userRatingCount'', JNull), (''priceLevel'', JNull), (''priceRange'', JNull),
                (''gps_coordinates'', JNull)],
          JObj [(''id'', JStr ''a''), (''name'', JStr ''Cafe A''), (''resourceName'', JNull),
                (''googleMapsUri'', JNull), (''primaryType'', JNull),
                (''primaryTypeDisplayName'', JNull), (''types'', JArr []), (''rating'', JNull),
                (''userRatingCount'', JNull), (''priceLevel'', JNull), (''priceRange'', JNull),
                (''gps_coordinates'',
                 JObj [(''latitude'', JNum 1), (''longitude'', JNum 2)])]]"
  have perm: "mset (rev ?names) = mset ?names"
    by (rule mset_rev)
  have run: "hydrate_places 16 detail_catalog rev ?names = Inr ?out"
    by (rule hydrate_catalog)
  have two: "length ?out = 2"
    by simp
  have gone: "detail_catalog ''places/gone'' = Inr \<lparr>status_code = 404, json_body = None\<rparr>"
    by (simp add: detail_catalog_def)
  have st: "status_code \<lparr>status_code = 404, json_body = None :: json option\<rparr> = 404"
    by simp
  have down: "place_details detail_unavailable ''places/a'' = Inl HTTPError"
    by (simp add: place_details_def detail_unavailable_def raise_for_status_def)
  have mem: "''places/a'' \<in> set ?names"
    by simp
  note cat = hydrate_places_keeps_found_refs[where as_completed = rev and place_names = ?names
      and MAX_WORKERS = 16 and get = detail_catalog and out = ?out, OF perm]
  from cat run have "length ?out = length (filter (found detail_catalog) ?names)"
    by blast
  with two have a: "length (filter (found detail_catalog) ?names) = 2"
    by (simp only:)
  from cat gone st have b: "\<not> found detail_catalog ''places/gone''"
    by blast
  from hydrate_places_keeps_found_refs[where as_completed = rev and place_names = ?names
      and MAX_WORKERS = 16 and get = detail_unavailable, OF perm] down mem
  have c: "\<exists>e'. hydrate_places 16 detail_unavailable rev ?names = Inl e'"
    by blast
  from run a b c show ?thesis
    by blast
qed

text \<open>
  Claim C4 as it is worded fails in two places. A lookup that fails otherwise than by
  NotFound (here status 500) is not dropped: the whole stage raises. And a lookup that
  succeeds with an empty record contributes no record.
\<close>

theorem hydrate_places_failure_counterexample:
  "hydrate_places 16 detail_unavailable id [''places/a''] = Inl HTTPError \<and>
   hydrate_places 16 detail_empty id [''places/a''] = Inr []"
  by (simp add: hydrate_places_def place_details_def detail_unavailable_def detail_empty_def
        raise_for_status_def)

end
